theory Spec2Isabelle
  imports Main "HOL-Library.Sublist"
begin

section \<open>Values and built-in operations of the Python runtime\<close>

text \<open>
  The handler of \<^verbatim>\<open>capstone-agent/functions/main.py\<close> works on the values
  that \<^verbatim>\<open>json.loads\<close> produces. \<open>JNull\<close> is Python's \<^verbatim>\<open>None\<close>, an object is
  the association list of a \<^verbatim>\<open>dict\<close> in insertion order. Non-integral numbers
  carry the text of their literal.
\<close>

datatype json =
    JNull
  | JBool bool
  | JInt int
  | JFloat string
  | JStr string
  | JArr "json list"
  | JObj "(string \<times> json) list"

text \<open>The exceptions that can reach the handler, by class.\<close>

datatype exn =
    TypeError
  | KeyError
  | JSONDecodeError
  | HTTPError nat
  | TransportError string
  | DefaultCredentialsError string

text \<open>
  Library functions that are not part of the repository are parameters:
  \<open>json_loads\<close> is \<^verbatim>\<open>json.loads\<close> (\<open>None\<close> when it raises
  \<^verbatim>\<open>JSONDecodeError\<close>), \<open>py_repr\<close> is \<^verbatim>\<open>repr\<close> on the values that are not
  strings, \<open>float_is_zero\<close> tells whether a float literal denotes zero, and
  \<open>exn_str\<close> is \<^verbatim>\<open>str(e)\<close> of an exception.
\<close>

record pylib =
  json_loads :: "string \<Rightarrow> json option"
  py_repr :: "json \<Rightarrow> string"
  float_is_zero :: "string \<Rightarrow> bool"
  exn_str :: "exn \<Rightarrow> string"

text \<open>Truth value of an object, as \<^verbatim>\<open>if x\<close> and \<^verbatim>\<open>not x\<close> test it.\<close>

fun truthy :: "pylib \<Rightarrow> json \<Rightarrow> bool" where
  "truthy L JNull = False"
| "truthy L (JBool b) = b"
| "truthy L (JInt i) = (i \<noteq> 0)"
| "truthy L (JFloat f) = (\<not> float_is_zero L f)"
| "truthy L (JStr s) = (s \<noteq> [])"
| "truthy L (JArr xs) = (xs \<noteq> [])"
| "truthy L (JObj kvs) = (kvs \<noteq> [])"

text \<open>\<^verbatim>\<open>str(x)\<close>, which is also what an f-string field without format spec inserts.\<close>

fun py_str :: "pylib \<Rightarrow> json \<Rightarrow> string" where
  "py_str L (JStr s) = s"
| "py_str L v = py_repr L v"

text \<open>
  \<^verbatim>\<open>k in x\<close> for a string \<open>k\<close>: key membership in a dict, element
  membership in a list, substring test in a string, \<^verbatim>\<open>TypeError\<close> on
  every other value.
\<close>

fun py_in :: "string \<Rightarrow> json \<Rightarrow> exn + bool" where
  "py_in k (JObj kvs) = Inr (k \<in> set (map fst kvs))"
| "py_in k (JArr xs) = Inr (JStr k \<in> set xs)"
| "py_in k (JStr s) = Inr (sublist k s)"
| "py_in k v = Inl TypeError"

text \<open>
  \<^verbatim>\<open>x[k]\<close> for a string \<open>k\<close>: lookup in a dict (\<^verbatim>\<open>KeyError\<close> when
  absent), \<^verbatim>\<open>TypeError\<close> on every other value.
\<close>

fun py_getitem :: "json \<Rightarrow> string \<Rightarrow> exn + json" where
  "py_getitem (JObj kvs) k = (case map_of kvs k of Some v \<Rightarrow> Inr v | None \<Rightarrow> Inl KeyError)"
| "py_getitem v k = Inl TypeError"

subsection \<open>String methods\<close>

text \<open>\<^verbatim>\<open>s.find(c)\<close>: the index of the first occurrence, \<open>-1\<close> when there is none.\<close>

fun str_find :: "char \<Rightarrow> string \<Rightarrow> int" where
  "str_find c [] = -1"
| "str_find c (x # xs) =
     (if x = c then 0 else (let r = str_find c xs in if r = -1 then -1 else r + 1))"

text \<open>\<^verbatim>\<open>s.rfind(c)\<close>: the index of the last occurrence, \<open>-1\<close> when there is none.\<close>

definition str_rfind :: "char \<Rightarrow> string \<Rightarrow> int" where
  "str_rfind c s =
     (let r = str_find c (rev s) in if r = -1 then -1 else int (length s) - 1 - r)"

text \<open>\<^verbatim>\<open>s[a:b]\<close>: negative bounds count from the end, all bounds are clamped.\<close>

definition py_slice :: "string \<Rightarrow> int \<Rightarrow> int \<Rightarrow> string" where
  "py_slice s a b =
     (let n = int (length s);
          lo = (if a < 0 then max 0 (a + n) else min a n);
          hi = (if b < 0 then max 0 (b + n) else min b n)
      in take (nat (hi - lo)) (drop (nat lo) s))"

definition newline :: char where
  "newline = CHR 0x0A"

text \<open>\<^verbatim>\<open>s.split("\n")\<close> and \<^verbatim>\<open>"\n".join(ls)\<close>.\<close>

fun split_nl :: "string \<Rightarrow> string list" where
  "split_nl [] = [[]]"
| "split_nl (c # cs) =
     (if c = newline then [] # split_nl cs
      else (case split_nl cs of [] \<Rightarrow> [[c]] | l # ls \<Rightarrow> (c # l) # ls))"

fun join_nl :: "string list \<Rightarrow> string" where
  "join_nl [] = []"
| "join_nl [l] = l"
| "join_nl (l # ls) = l @ newline # join_nl ls"

text \<open>
  The characters \<^verbatim>\<open>str.strip()\<close> removes: those for which \<^verbatim>\<open>str.isspace\<close>
  holds, among the code points below 256.
\<close>

definition is_space :: "char \<Rightarrow> bool" where
  "is_space c =
     (c \<in> set [CHR 0x09, CHR 0x0A, CHR 0x0B, CHR 0x0C, CHR 0x0D, CHR 0x1C, CHR 0x1D,
                CHR 0x1E, CHR 0x1F, CHR 0x20, CHR 0x85, CHR 0xA0])"

definition strip :: "string \<Rightarrow> string" where
  "strip s = rev (dropWhile is_space (rev (dropWhile is_space s)))"

subsection \<open>\<^verbatim>\<open>textwrap.dedent\<close>\<close>

text \<open>
  CPython's \<^verbatim>\<open>textwrap.dedent\<close> (the implementation with regular expressions,
  up to Python 3.13), line by line: lines of blanks and tabs only
  become empty; the margin is the longest run of blanks and tabs that starts every
  remaining non-empty line; the margin is cut from each line that starts with it.
\<close>

definition is_blank_tab :: "char \<Rightarrow> bool" where
  "is_blank_tab c = (c = CHR '' '' \<or> c = CHR 0x09)"

text \<open>\<^verbatim>\<open>_whitespace_only_re.sub('', text)\<close> on one line.\<close>

definition blank_out :: "string \<Rightarrow> string" where
  "blank_out l = (if list_all is_blank_tab l then [] else l)"

text \<open>One match of \<^verbatim>\<open>_leading_whitespace_re\<close>: the indentation of a line.\<close>

definition indent_of :: "string \<Rightarrow> string" where
  "indent_of l = takeWhile is_blank_tab l"

fun common_prefix :: "string \<Rightarrow> string \<Rightarrow> string" where
  "common_prefix (x # xs) (y # ys) = (if x = y then x # common_prefix xs ys else [])"
| "common_prefix xs ys = []"

text \<open>One round of the loop over the indentations.\<close>

fun margin_step :: "string option \<Rightarrow> string \<Rightarrow> string option" where
  "margin_step None indent = Some indent"
| "margin_step (Some margin) indent =
     (if prefix margin indent then Some margin
      else if prefix indent margin then Some indent
      else Some (common_prefix margin indent))"

text \<open>\<^verbatim>\<open>re.sub(r'(?m)^' + margin, '', text)\<close> on one line.\<close>

definition cut_margin :: "string \<Rightarrow> string \<Rightarrow> string" where
  "cut_margin margin l = (if prefix margin l then drop (length margin) l else l)"

definition dedent :: "string \<Rightarrow> string" where
  "dedent text =
     (let ls = map blank_out (split_nl text);
          indents = map indent_of (filter (\<lambda>l. l \<noteq> []) ls)
      in case foldl margin_step None indents of
           None \<Rightarrow> join_nl ls
         | Some margin \<Rightarrow>
             if margin = [] then join_nl ls else join_nl (map (cut_margin margin) ls))"

section \<open>The prompt formatter\<close>

text \<open>
  The f-string of \<^verbatim>\<open>_format_agent_message\<close>, one list element per line of the
  literal: it opens with a line break and ends with the indentation in front of the
  closing quotes.
\<close>

definition prompt_lines :: "string \<Rightarrow> string \<Rightarrow> string \<Rightarrow> string list" where
  \<open>prompt_lines session_id query constraint_section =
     [ '''',
       ''        SESSION_ID: '' @ session_id,
       '''',
       ''        OBSERVE:'',
       ''        - Capture the incoming request exactly as received.'',
       ''        - Request: "'' @ query @ ''"'',
       ''        - Constraint: "'' @ constraint_section @ ''"'',
       '''',
       ''        REFLECT:'',
       ''        - Review the observation for missing context (missing steps, conflicting instructions).'',
       ''        - Call out any tensions or nutrition trade-offs before planning.'',
       '''',
       ''        LOOP:'',
       ''        - Produce a corrected cooking plan that explicitly mentions how you honored the constraint.'',
       ''        - Highlight a single self-correction you made after your reflection.'',
       ''        - **The ONLY output you provide MUST be a valid, unadulterated JSON object.**'',
       ''        - Answer in JSON with keys: plan (array of steps), constraint_ack (string), self_corrections (string), session_id (string).'',
       ''        - Close the loop by confirming the plan is ready to execute.'',
       ''        '' ]\<close>

definition format_agent_message :: "pylib \<Rightarrow> json \<Rightarrow> json \<Rightarrow> string \<Rightarrow> string" where
  "format_agent_message L query constraint session_id =
     (let constraint_section =
            (if truthy L constraint then py_str L constraint
             else ''No additional constraint.'')
      in strip (dedent (join_nl (prompt_lines session_id (py_str L query) constraint_section))))"

section \<open>The HTTP handler\<close>

text \<open>
  An inbound request: its method, whether its content type announces JSON, and its
  body. \<^verbatim>\<open>req.get_json(silent=True)\<close> gives \<^verbatim>\<open>None\<close> when the content
  type is not JSON or the body does not parse.
\<close>

record request =
  "method" :: string
  is_json :: bool
  data :: string

definition get_json_silent :: "pylib \<Rightarrow> request \<Rightarrow> json" where
  "get_json_silent L req =
     (if is_json req then (case json_loads L (data req) of Some v \<Rightarrow> v | None \<Rightarrow> JNull)
      else JNull)"

text \<open>
  A response as the handler constructs it: the status, the headers passed to the
  constructor, and the body, either a plain text or \<^verbatim>\<open>json.dumps\<close> of a value.
\<close>

datatype body = Text string | Dumps json

record response =
  status :: nat
  headers :: "(string \<times> string) list"
  body :: body

text \<open>The reply of the agent service: \<^verbatim>\<open>response.status_code\<close> and \<^verbatim>\<open>response.text\<close>.\<close>

record http_reply =
  status_code :: nat
  reply_text :: string

text \<open>
  What one invocation reads from outside: the environment variable
  \<^verbatim>\<open>VERTEX_AGENT_ID\<close>, whether \<^verbatim>\<open>google.auth.default\<close> raises, the value of
  \<^verbatim>\<open>str(uuid.uuid4())\<close>, and the outcome of \<^verbatim>\<open>session.post\<close> for a URL and
  a JSON body (\<open>Inl\<close> when the call itself raises).
\<close>

record world =
  vertex_agent_id :: "string option"
  auth_default :: "exn option"
  uuid4 :: string
  session_post :: "string \<Rightarrow> json \<Rightarrow> exn + http_reply"

text \<open>What one invocation does to the outside, in order.\<close>

datatype event =
    Printed string
  | AuthDefault
  | NewSession
  | Posted string json

definition API_BASE_URL :: string where
  "API_BASE_URL = ''https://us-central1-aiplatform.googleapis.com/v1/''"

definition json_headers :: "(string \<times> string) list" where
  "json_headers =
     [(''Content-Type'', ''application/json''), (''Access-Control-Allow-Origin'', ''*'')]"

text \<open>\<^verbatim>\<open>all(k in payload for k in ks)\<close>: stops at the first key that is absent.\<close>

fun all_in :: "json \<Rightarrow> string list \<Rightarrow> exn + bool" where
  "all_in payload [] = Inr True"
| "all_in payload (k # ks) =
     (case py_in k payload of
        Inl e \<Rightarrow> Inl e
      | Inr present \<Rightarrow> if present then all_in payload ks else Inr False)"

text \<open>The condition of line 65: \<^verbatim>\<open>not payload or not all(...)\<close>.\<close>

definition payload_rejected :: "pylib \<Rightarrow> json \<Rightarrow> exn + bool" where
  "payload_rejected L payload =
     (if \<not> truthy L payload then Inr True
      else (case all_in payload [''query'', ''constraint''] of
              Inl e \<Rightarrow> Inl e
            | Inr b \<Rightarrow> Inr (\<not> b)))"

text \<open>
  Lines 125 to 139, the body of the inner \<^verbatim>\<open>try\<close> up to the value of
  \<^verbatim>\<open>agent_json\<close>.
\<close>

definition extract_agent_json :: "pylib \<Rightarrow> json \<Rightarrow> exn + json" where
  "extract_agent_json L output =
     (case output of
        JStr s \<Rightarrow>
          (let start_index = str_find CHR ''{'' s;
               end_index = str_rfind CHR ''}'' s
           in if start_index \<noteq> -1 \<and> end_index \<noteq> -1 \<and> end_index > start_index
              then (case json_loads L (py_slice s start_index (end_index + 1)) of
                      Some agent_json \<Rightarrow> Inr agent_json
                    | None \<Rightarrow> Inl JSONDecodeError)
              else Inl JSONDecodeError)
      | _ \<Rightarrow> Inr output)"

text \<open>The classes of \<^verbatim>\<open>except (json.JSONDecodeError, TypeError)\<close>.\<close>

fun caught_inner :: "exn \<Rightarrow> bool" where
  "caught_inner JSONDecodeError = True"
| "caught_inner TypeError = True"
| "caught_inner e = False"

text \<open>Lines 117 to 165: what is made of the text of a reply whose status passed.\<close>

definition process_reply ::
  "pylib \<Rightarrow> (string \<times> string) list \<Rightarrow> string \<Rightarrow> exn + response" where
  "process_reply L hdrs txt =
     (case json_loads L txt of
        None \<Rightarrow> Inl JSONDecodeError
      | Some response_data \<Rightarrow>
          (case py_in ''output'' response_data of
             Inl e \<Rightarrow> Inl e
           | Inr present \<Rightarrow>
               if present then
                 (case py_getitem response_data ''output'' of
                    Inl e \<Rightarrow> Inl e
                  | Inr output \<Rightarrow>
                      (case extract_agent_json L output of
                         Inr agent_json \<Rightarrow>
                           Inr \<lparr>status = 200, headers = hdrs, body = Dumps agent_json\<rparr>
                       | Inl e \<Rightarrow>
                           if caught_inner e then
                             Inr \<lparr>status = 200, headers = hdrs,
                                  body = Dumps (JObj
                                    [(''response'', JStr (py_str L output)),
                                     (''note'', JStr ''Agent returned unparsable text response'')])\<rparr>
                           else Inl e))
               else
                 Inr \<lparr>status = 200, headers = hdrs,
                      body = Dumps (JObj
                        [(''response'', JStr (py_str L response_data)),
                         (''note'', JStr ''Unexpected response format from agent'')])\<rparr>))"

text \<open>
  Lines 107 to 165, the outer \<^verbatim>\<open>try\<close>: an exception comes with the text of
  the reply when \<^verbatim>\<open>response\<close> was bound before it was raised.
  \<^verbatim>\<open>raise_for_status\<close> raises on the statuses 400 to 599.
\<close>

definition call_agent ::
  "pylib \<Rightarrow> world \<Rightarrow> (string \<times> string) list \<Rightarrow> string \<Rightarrow> json
     \<Rightarrow> (exn \<times> string option) + response" where
  "call_agent L W hdrs API_URL request_body =
     (case session_post W API_URL request_body of
        Inl e \<Rightarrow> Inl (e, None)
      | Inr reply \<Rightarrow>
          if 400 \<le> status_code reply \<and> status_code reply < 600
          then Inl (HTTPError (status_code reply), Some (reply_text reply))
          else (case process_reply L hdrs (reply_text reply) of
                  Inl e \<Rightarrow> Inl (e, Some (reply_text reply))
                | Inr r \<Rightarrow> Inr r))"

text \<open>Lines 167 to 183, the handler of the outer \<^verbatim>\<open>try\<close>.\<close>

definition error_response ::
  "pylib \<Rightarrow> (string \<times> string) list \<Rightarrow> string \<Rightarrow> exn \<Rightarrow> string option \<Rightarrow> response" where
  "error_response L hdrs API_URL e bound_text =
     \<lparr>status = 500, headers = hdrs,
      body = Dumps (JObj
        ([(''error'', JStr ''Failed to call Vertex AI Agent Engine.''),
          (''details'', JStr (exn_str L e)),
          (''api_url'', JStr API_URL)]
         @ (case bound_text of None \<Rightarrow> [] | Some t \<Rightarrow> [(''api_response'', JStr t)])))\<rparr>"

text \<open>Line 86.\<close>

definition api_url :: "string \<Rightarrow> string" where
  "api_url AGENT_ENDPOINT = API_BASE_URL @ AGENT_ENDPOINT @ '':query''"

text \<open>Lines 98 to 103.\<close>

definition request_body :: "string \<Rightarrow> string \<Rightarrow> json" where
  "request_body formatted_message session_id =
     JObj [(''input'', JObj [(''message'', JStr formatted_message),
                             (''session_id'', JStr session_id)])]"

text \<open>Lines 85 to 183: everything after the endpoint is known.\<close>

definition invoke_agent ::
  "pylib \<Rightarrow> world \<Rightarrow> (string \<times> string) list \<Rightarrow> json \<Rightarrow> json \<Rightarrow> string
     \<Rightarrow> (exn + response) \<times> event list" where
  "invoke_agent L W hdrs query constraint AGENT_ENDPOINT =
     (let API_URL = api_url AGENT_ENDPOINT in
      case auth_default W of
        Some e \<Rightarrow> (Inl e, [AuthDefault])
      | None \<Rightarrow>
          (let session_id = uuid4 W;
               formatted_message = format_agent_message L query constraint session_id;
               body_sent = request_body formatted_message session_id;
               before = [AuthDefault, NewSession,
                         Printed (''Calling Agent Engine: '' @ API_URL),
                         Posted API_URL body_sent]
           in case call_agent L W hdrs API_URL body_sent of
                Inr r \<Rightarrow> (Inr r, before)
              | Inl (e, bound_text) \<Rightarrow>
                  (Inr (error_response L hdrs API_URL e bound_text),
                   before @ [Printed (''API Call to Agent Engine failed: '' @ exn_str L e)])))"

text \<open>The response of lines 66 to 70.\<close>

definition validation_error_response :: response where
  "validation_error_response =
     \<lparr>status = 400, headers = json_headers,
      body = Dumps (JObj
        [(''error'', JStr ''Missing 'query' or 'constraint' in JSON body.'')])\<rparr>"

text \<open>The response of lines 79 to 83.\<close>

definition config_error_response :: response where
  "config_error_response =
     \<lparr>status = 500, headers = json_headers,
      body = Dumps (JObj
        [(''error'', JStr ''Configuration Error: Agent ID environment variable (VERTEX_AGENT_ID) not set. Check deployment command.'')])\<rparr>"

text \<open>
  The handler. \<open>Inl\<close> is an exception that leaves \<^verbatim>\<open>agentProxy\<close> uncaught; the
  list is what it did to the outside before it ended.
\<close>

definition agentProxy :: "pylib \<Rightarrow> world \<Rightarrow> request \<Rightarrow> (exn + response) \<times> event list" where
  "agentProxy L W req =
     (if method req = ''OPTIONS'' then
        (Inr \<lparr>status = 200,
              headers = [(''Access-Control-Allow-Origin'', ''*''),
                         (''Access-Control-Allow-Methods'', ''POST, OPTIONS''),
                         (''Access-Control-Allow-Headers'', ''Content-Type'')],
              body = Text ''''\<rparr>, [])
      else if method req \<noteq> ''POST'' then
        (Inr \<lparr>status = 405, headers = [], body = Text ''Method Not Allowed''\<rparr>, [])
      else
        (let payload = get_json_silent L req
         in case payload_rejected L payload of
              Inl e \<Rightarrow> (Inl e, [])
            | Inr rejected \<Rightarrow>
                if rejected then (Inr validation_error_response, [])
                else
                  (case py_getitem payload ''query'' of
                     Inl e \<Rightarrow> (Inl e, [])
                   | Inr query \<Rightarrow>
                       (case py_getitem payload ''constraint'' of
                          Inl e \<Rightarrow> (Inl e, [])
                        | Inr constraint \<Rightarrow>
                            (case vertex_agent_id W of
                               None \<Rightarrow> (Inr config_error_response, [])
                             | Some AGENT_ENDPOINT \<Rightarrow>
                                 if AGENT_ENDPOINT = [] then (Inr config_error_response, [])
                                 else invoke_agent L W json_headers query constraint
                                        AGENT_ENDPOINT)))))"

section \<open>Notions of the specification\<close>

text \<open>The first and the last position of a character in a string.\<close>

definition first_index :: "char \<Rightarrow> string \<Rightarrow> nat \<Rightarrow> bool" where
  "first_index c s i = (i < length s \<and> s ! i = c \<and> (\<forall>k<i. s ! k \<noteq> c))"

definition last_index :: "char \<Rightarrow> string \<Rightarrow> nat \<Rightarrow> bool" where
  "last_index c s j = (j < length s \<and> s ! j = c \<and> (\<forall>k<length s. j < k \<longrightarrow> s ! k \<noteq> c))"

text \<open>The section headers of a prompt: its lines that are one of the three labels.\<close>

definition section_headers :: "string \<Rightarrow> string list" where
  "section_headers prompt =
     filter (\<lambda>l. l \<in> set [''OBSERVE:'', ''REFLECT:'', ''LOOP:'']) (split_nl prompt)"

section \<open>Concrete inputs\<close>

text \<open>
  A finite part of the library, enough to run the handler on the inputs below:
  each listed text with the value \<^verbatim>\<open>json.loads\<close> gives for it (the other texts
  used below are not JSON), and \<^verbatim>\<open>repr\<close> and \<^verbatim>\<open>str(e)\<close> on the values that
  occur.
\<close>

definition sample_loads :: "string \<Rightarrow> json option" where
  \<open>sample_loads =
     map_of
       [(''{"query": "soup", "constraint": ""}'',
           JObj [(''query'', JStr ''soup''), (''constraint'', JStr '''')]),
        (''5'', JInt 5),
        (''{}'', JObj []),
        (''{"output": "no json here"}'', JObj [(''output'', JStr ''no json here'')]),
        (''{"output": "Sure! {} Thanks."}'', JObj [(''output'', JStr ''Sure! {} Thanks.'')]),
        (''{"output": "{} and {}"}'', JObj [(''output'', JStr ''{} and {}'')]),
        (''{"output": [1]}'', JObj [(''output'', JArr [JInt 1])])]\<close>

fun sample_repr :: "json \<Rightarrow> string" where
  "sample_repr JNull = ''None''"
| "sample_repr (JBool b) = (if b then ''True'' else ''False'')"
| "sample_repr (JInt i) = (if i = 5 then ''5'' else if i = 1 then ''1'' else ''0'')"
| "sample_repr (JArr xs) = (if xs = [] then ''[]'' else ''[1]'')"
| "sample_repr v = ''{}''"

fun sample_exn_str :: "exn \<Rightarrow> string" where
  "sample_exn_str TypeError = ''argument of type 'int' is not iterable''"
| "sample_exn_str KeyError = CHR 0x27 # ''output'' @ [CHR 0x27]"
| "sample_exn_str JSONDecodeError = ''Expecting value: line 1 column 1 (char 0)''"
| "sample_exn_str (HTTPError n) = ''Server Error''"
| "sample_exn_str (TransportError m) = m"
| "sample_exn_str (DefaultCredentialsError m) = m"

definition sample_lib :: pylib where
  "sample_lib =
     \<lparr>json_loads = sample_loads, py_repr = sample_repr,
      float_is_zero = (\<lambda>f. f = ''0.0''),
      exn_str = sample_exn_str\<rparr>"

text \<open>A world in which the endpoint is configured and the agent gives one fixed reply.\<close>

definition sample_world :: "http_reply \<Rightarrow> world" where
  "sample_world reply =
     \<lparr>vertex_agent_id = Some ''projects/p/locations/us-central1/reasoningEngines/1'',
      auth_default = None,
      uuid4 = ''1b4e28ba-2fa1-41d2-883f-0016d3cca427'',
      session_post = (\<lambda>url sent. Inr reply)\<rparr>"

definition sample_request :: request where
  \<open>sample_request =
     \<lparr>method = ''POST'', is_json = True, data = ''{"query": "soup", "constraint": ""}''\<rparr>\<close>

section \<open>Facts about the string operations\<close>


lemma str_find_present:
  "c \<in> set s \<Longrightarrow> 0 \<le> str_find c s \<and> first_index c s (nat (str_find c s))"
proof (induction s)
  case Nil
  then show ?case by simp
next
  case (Cons x xs)
  show ?case
  proof (cases "x = c")
    case True
    then show ?thesis by (simp add: first_index_def)
  next
    case False
    with Cons.prems have mem: "c \<in> set xs" by simp
    from Cons.IH [OF mem] have ge: "0 \<le> str_find c xs"
      and fi: "first_index c xs (nat (str_find c xs))" by simp_all
    from ge have ne: "str_find c xs \<noteq> -1" by simp
    have nat_eq: "nat (str_find c xs + 1) = Suc (nat (str_find c xs))"
      using ge by simp
    have "first_index c (x # xs) (Suc (nat (str_find c xs)))"
      using fi False by (auto simp: first_index_def less_Suc_eq_0_disj)
    then show ?thesis using False ne ge nat_eq by (simp add: Let_def)
  qed
qed

lemma first_index_unique:
  "first_index c s i \<Longrightarrow> first_index c s i' \<Longrightarrow> i = i'"
  unfolding first_index_def by (metis nat_neq_iff)

lemma first_index_mem: "first_index c s i \<Longrightarrow> c \<in> set s"
  unfolding first_index_def by (metis nth_mem)

lemma str_find_first: "first_index c s i \<Longrightarrow> str_find c s = int i"
  using str_find_present [OF first_index_mem, of c s i] first_index_unique [of c s i]
  by (metis int_nat_eq)

lemma last_index_rev:
  "last_index c s j \<Longrightarrow> first_index c (rev s) (length s - 1 - j)"
  unfolding last_index_def first_index_def
  by (auto simp: rev_nth)

lemma first_index_rev:
  assumes "first_index c (rev s) i"
  shows "last_index c s (length s - 1 - i)"
proof -
  from assms have i: "i < length s" and at: "rev s ! i = c"
    and before: "\<forall>k<i. rev s ! k \<noteq> c"
    by (simp_all add: first_index_def)
  have "s ! (length s - 1 - i) = c" using i at by (simp add: rev_nth)
  moreover have "s ! k \<noteq> c" if "k < length s" "length s - 1 - i < k" for k
  proof -
    have "length s - 1 - k < i" using that i by arith
    with before have "rev s ! (length s - 1 - k) \<noteq> c" by blast
    moreover have "rev s ! (length s - 1 - k) = s ! k"
      using that(1) by (simp add: rev_nth)
    ultimately show ?thesis by simp
  qed
  ultimately show ?thesis using i by (simp add: last_index_def)
qed


lemma str_rfind_last: "last_index c s j \<Longrightarrow> str_rfind c s = int j"
proof -
  assume l: "last_index c s j"
  then have "j < length s" by (simp add: last_index_def)
  moreover from l have "str_find c (rev s) = int (length s - 1 - j)"
    by (rule str_find_first [OF last_index_rev])
  ultimately show ?thesis by (simp add: str_rfind_def Let_def)
qed

lemma str_rfind_present:
  "c \<in> set s \<Longrightarrow> 0 \<le> str_rfind c s \<and> last_index c s (nat (str_rfind c s))"
proof -
  assume "c \<in> set s"
  then have mem: "c \<in> set (rev s)" by simp
  from str_find_present [OF mem] have ge: "0 \<le> str_find c (rev s)"
    and fi: "first_index c (rev s) (nat (str_find c (rev s)))" by simp_all
  from fi have lt: "nat (str_find c (rev s)) < length s" by (simp add: first_index_def)
  from first_index_rev [OF fi] have "last_index c s (length s - 1 - nat (str_find c (rev s)))" .
  moreover have "str_rfind c s = int (length s - 1 - nat (str_find c (rev s)))"
    using ge lt by (simp add: str_rfind_def Let_def)
  ultimately show ?thesis by simp
qed

lemma py_slice_span:
  "i \<le> j \<Longrightarrow> j < length s \<Longrightarrow> py_slice s (int i) (int j + 1) = take (j + 1 - i) (drop i s)"
proof -
  assume ij: "i \<le> j" and j: "j < length s"
  have n: "nat (int j + 1) = Suc j" by simp
  show ?thesis using ij j by (simp add: py_slice_def Let_def nat_diff_distrib' min_def n)
qed

lemma extract_span:
  assumes "first_index CHR ''{'' s i" "last_index CHR ''}'' s j" "i < j"
  shows "extract_agent_json L (JStr s) =
           (case json_loads L (take (j + 1 - i) (drop i s)) of
              Some v \<Rightarrow> Inr v | None \<Rightarrow> Inl JSONDecodeError)"
proof -
  have s: "str_find CHR ''{'' s = int i" by (rule str_find_first [OF assms(1)])
  have e: "str_rfind CHR ''}'' s = int j" by (rule str_rfind_last [OF assms(2)])
  have j: "j < length s" using assms(2) by (simp add: last_index_def)
  have sl: "py_slice s (int i) (int j + 1) = take (j + 1 - i) (drop i s)"
    using assms(3) j by (intro py_slice_span) simp_all
  show ?thesis using assms(3) by (simp add: extract_agent_json_def s e sl)
qed


lemma split_nl_nonempty: "split_nl s \<noteq> []"
  by (induction s) (auto split: list.splits)

lemma split_nl_append: "split_nl (a @ newline # b) = split_nl a @ split_nl b"
proof (induction a)
  case Nil
  show ?case by simp
next
  case (Cons c cs)
  obtain l ls where sp: "split_nl cs = l # ls"
    using split_nl_nonempty [of cs] by (cases "split_nl cs") auto
  show ?case using Cons.IH sp by simp
qed

lemma split_nl_line: "newline \<notin> set l \<Longrightarrow> split_nl l = [l]"
  by (induction l) auto

lemma join_nl_Cons: "ls \<noteq> [] \<Longrightarrow> join_nl (l # ls) = l @ newline # join_nl ls"
  by (cases ls) auto

lemma join_nl_append:
  "xs \<noteq> [] \<Longrightarrow> ys \<noteq> [] \<Longrightarrow> join_nl (xs @ ys) = join_nl xs @ newline # join_nl ys"
proof (induction xs)
  case Nil
  then show ?case by simp
next
  case (Cons x xs)
  show ?case
  proof (cases "xs = []")
    case True
    with Cons.prems show ?thesis by (simp add: join_nl_Cons)
  next
    case False
    with Cons show ?thesis by (simp add: join_nl_Cons)
  qed
qed

lemma split_join_nl:
  "ls \<noteq> [] \<Longrightarrow> \<forall>l\<in>set ls. newline \<notin> set l \<Longrightarrow> split_nl (join_nl ls) = ls"
proof (induction ls)
  case Nil
  then show ?case by simp
next
  case (Cons l ls)
  show ?case
  proof (cases "ls = []")
    case True
    with Cons.prems show ?thesis by (simp add: split_nl_line)
  next
    case False
    with Cons show ?thesis by (simp add: join_nl_Cons split_nl_append split_nl_line)
  qed
qed

lemma sublist_join_nl: "l \<in> set ls \<Longrightarrow> sublist l (join_nl ls)"
proof (induction ls)
  case Nil
  then show ?case by simp
next
  case (Cons x xs)
  show ?case
  proof (cases "xs = []")
    case True
    with Cons.prems show ?thesis by simp
  next
    case False
    then have j: "join_nl (x # xs) = x @ newline # join_nl xs" by (rule join_nl_Cons)
    show ?thesis
    proof (cases "l = x")
      case True
      then show ?thesis unfolding j by (simp add: sublist_append)
    next
      case False
      with Cons have "sublist l (join_nl xs)" by simp
      then have "sublist l (newline # join_nl xs)" by (rule sublist_Cons_right[THEN iffD2, OF disjI2])
      then show ?thesis unfolding j by (simp add: sublist_append)
    qed
  qed
qed

lemma dropWhile_skip: "\<forall>c\<in>set a. P c \<Longrightarrow> dropWhile P (a @ r) = dropWhile P r"
  by (induction a) auto

lemma dropWhile_stop: "\<not> (\<forall>c\<in>set a. P c) \<Longrightarrow> dropWhile P (a @ r) = dropWhile P a @ r"
  by (induction a) auto

lemma strip_core:
  assumes "t \<noteq> []" "\<not> is_space (hd t)" "\<not> is_space (last t)"
    "list_all is_space a" "list_all is_space b"
  shows "strip (a @ t @ b) = t"
proof -
  obtain x xs where t: "t = x # xs" using assms(1) by (cases t) auto
  have front: "dropWhile is_space (a @ t @ b) = t @ b"
    using assms(2,4) t by (simp add: list_all_iff dropWhile_skip)
  obtain ys y where t': "t = ys @ [y]" using assms(1) by (cases t rule: rev_cases) auto
  have "dropWhile is_space (rev (t @ b)) = rev t"
    using assms(3,5) t' by (simp add: list_all_iff dropWhile_skip)
  then show ?thesis by (simp add: strip_def front)
qed

lemma strip_keeps_sublist:
  assumes "sublist t s" "t \<noteq> []" "\<not> is_space (hd t)" "\<not> is_space (last t)"
  shows "sublist t (strip s)"
proof -
  from assms(1) obtain p q where s: "s = p @ t @ q" by (auto simp: sublist_def)
  obtain x xs where t: "t = x # xs" using assms(2) by (cases t) auto
  obtain ys y where t': "t = ys @ [y]" using assms(2) by (cases t rule: rev_cases) auto
  have nx: "\<not> is_space x" using assms(3) t by simp
  have ny: "\<not> is_space y" using assms(4) t' by simp
  have "dropWhile is_space (p @ t @ q) = dropWhile is_space p @ t @ q"
  proof (cases "\<forall>c\<in>set p. is_space c")
    case True
    then show ?thesis using nx t by (simp add: dropWhile_skip)
  next
    case False
    then show ?thesis by (rule dropWhile_stop)
  qed
  then have d1: "dropWhile is_space s = dropWhile is_space p @ t @ q" by (simp add: s)
  define p' where "p' = dropWhile is_space p"
  have "dropWhile is_space (rev q @ rev t @ rev p') = dropWhile is_space (rev q) @ rev t @ rev p'"
  proof (cases "\<forall>c\<in>set (rev q). is_space c")
    case True
    then show ?thesis using ny t' by (simp add: dropWhile_skip)
  next
    case False
    then show ?thesis by (rule dropWhile_stop)
  qed
  then have "strip s = p' @ t @ rev (dropWhile is_space (rev q))"
    by (simp add: strip_def d1 p'_def)
  then show ?thesis by (auto simp: sublist_def)
qed

lemma common_prefix_prefix:
  "prefix (common_prefix a b) a \<and> prefix (common_prefix a b) b"
  by (induction a b rule: common_prefix.induct) auto

lemma margin_step_prefix:
  "\<exists>m'. margin_step (Some m) i = Some m' \<and> prefix m' m \<and> prefix m' i"
  using common_prefix_prefix [of m i] by auto

lemma foldl_margin_Some:
  "\<exists>m'. foldl margin_step (Some m) is = Some m' \<and> prefix m' m \<and> (\<forall>i\<in>set is. prefix m' i)"
proof (induction "is" arbitrary: m)
  case Nil
  show ?case by simp
next
  case (Cons i "is")
  obtain m1 where m1: "margin_step (Some m) i = Some m1" "prefix m1 m" "prefix m1 i"
    using margin_step_prefix by blast
  obtain m2 where m2: "foldl margin_step (Some m1) is = Some m2" "prefix m2 m1"
    "\<forall>i\<in>set is. prefix m2 i"
    using Cons.IH by blast
  have "prefix m2 m" "prefix m2 i" using m1 m2(2) by (auto intro: prefix_order.trans)
  with m1 m2 show ?case by auto
qed

lemma foldl_margin_None:
  "is \<noteq> [] \<Longrightarrow> \<exists>m. foldl margin_step None is = Some m \<and> (\<forall>i\<in>set is. prefix m i)"
proof (cases "is")
  case Nil
  then show "is \<noteq> [] \<Longrightarrow> ?thesis" by simp
next
  case (Cons i rest)
  from foldl_margin_Some [of i rest] Cons show ?thesis by auto
qed

lemma cut_margin_Nil: "cut_margin [] l = l"
  by (simp add: cut_margin_def)

lemma dedent_lines:
  assumes "l \<in> set (split_nl text)" "\<not> list_all is_blank_tab l"
  shows "\<exists>m. prefix m (indent_of l) \<and>
           dedent text = join_nl (map (cut_margin m) (map blank_out (split_nl text)))"
proof -
  define ls where "ls = map blank_out (split_nl text)"
  define indents where "indents = map indent_of (filter (\<lambda>l. l \<noteq> []) ls)"
  have bl: "blank_out l = l" using assms(2) by (simp add: blank_out_def)
  have "l \<noteq> []" using assms(2) by auto
  with bl assms(1) have "l \<in> set (filter (\<lambda>l. l \<noteq> []) ls)"
    unfolding ls_def by (auto simp: image_iff intro!: bexI [of _ l])
  then have mem: "indent_of l \<in> set indents" by (simp add: indents_def)
  then have "indents \<noteq> []" by auto
  from foldl_margin_None [OF this] obtain m where
    m: "foldl margin_step None indents = Some m" "\<forall>i\<in>set indents. prefix m i" by blast
  have "dedent text = join_nl (map (cut_margin m) ls)"
  proof (cases "m = []")
    case True
    have "map (cut_margin []) ls = ls" by (simp add: cut_margin_Nil cong: map_cong)
    then show ?thesis using m(1) True
      by (simp add: dedent_def Let_def ls_def [symmetric] indents_def [symmetric])
  next
    case False
    then show ?thesis using m(1)
      by (simp add: dedent_def Let_def ls_def [symmetric] indents_def [symmetric])
  qed
  with m(2) mem show ?thesis unfolding ls_def by blast
qed

lemma dedent_keeps_line:
  assumes "list_all is_blank_tab ind" "core \<noteq> []" "\<not> is_blank_tab (hd core)"
    "newline \<notin> set (ind @ core)"
  shows "sublist core (dedent (pre @ newline # (ind @ core) @ newline # post))"
proof -
  define doc where "doc = pre @ newline # (ind @ core) @ newline # post"
  obtain x xs where core: "core = x # xs" using assms(2) by (cases core) auto
  have nx: "\<not> is_blank_tab x" using assms(3) core by simp
  have "split_nl doc = split_nl pre @ split_nl ((ind @ core) @ newline # post)"
    unfolding doc_def by (rule split_nl_append)
  also have "\<dots> = split_nl pre @ [ind @ core] @ split_nl post"
    using split_nl_line [OF assms(4)] split_nl_append [of "ind @ core" post]
    by (simp del: append_assoc)
  finally have sp: "split_nl doc = split_nl pre @ [ind @ core] @ split_nl post" .
  then have mem: "ind @ core \<in> set (split_nl doc)" by simp
  have nb: "\<not> list_all is_blank_tab (ind @ core)" using nx core by simp
  have ind: "indent_of (ind @ core) = ind"
    using assms(1) nx core by (simp add: indent_of_def list_all_iff takeWhile_append2)
  from dedent_lines [OF mem nb] obtain m where
    m: "prefix m ind" "dedent doc = join_nl (map (cut_margin m) (map blank_out (split_nl doc)))"
    unfolding ind by blast
  from m(1) obtain r where r: "ind = m @ r" by (auto simp: prefix_def)
  have "blank_out (ind @ core) = ind @ core"
    using nb by (simp only: blank_out_def if_False)
  then have "cut_margin m (blank_out (ind @ core)) = r @ core"
    by (simp add: cut_margin_def r)
  then have "r @ core \<in> set (map (cut_margin m) (map blank_out (split_nl doc)))"
    using mem by (auto simp: image_iff intro!: bexI [of _ "ind @ core"])
  then have "sublist (r @ core) (dedent doc)"
    unfolding m(2) by (rule sublist_join_nl)
  moreover have "sublist core (r @ core)" by (simp add: sublist_append)
  ultimately show ?thesis unfolding doc_def by (auto simp: sublist_def) (metis append.assoc)
qed

lemma map_of_key: "map_of kvs k = Some v \<Longrightarrow> k \<in> set (map fst kvs)"
  by (auto dest: map_of_SomeD intro: rev_image_eqI)


lemma payload_accepted:
  assumes "map_of kvs ''query'' = Some q" "map_of kvs ''constraint'' = Some c"
  shows "payload_rejected L (JObj kvs) = Inr False"
proof -
  have "kvs \<noteq> []" using assms(1) by auto
  moreover have "''query'' \<in> set (map fst kvs)" by (rule map_of_key) (rule assms(1))
  moreover have "''constraint'' \<in> set (map fst kvs)" by (rule map_of_key) (rule assms(2))
  ultimately show ?thesis by (simp add: payload_rejected_def)
qed

lemma agentProxy_accepted:
  assumes "method req = ''POST''" "get_json_silent L req = JObj kvs"
    "map_of kvs ''query'' = Some q" "map_of kvs ''constraint'' = Some c"
  shows "agentProxy L W req =
           (case vertex_agent_id W of
              None \<Rightarrow> (Inr config_error_response, [])
            | Some ep \<Rightarrow>
                if ep = [] then (Inr config_error_response, [])
                else invoke_agent L W json_headers q c ep)"
  using assms payload_accepted [OF assms(3,4), of L]
  by (simp add: agentProxy_def)

lemma invoke_agent_reply:
  assumes "auth_default W = None"
    "session_post W (api_url ep)
       (request_body (format_agent_message L q c (uuid4 W)) (uuid4 W)) = Inr reply"
    "\<not> (400 \<le> status_code reply \<and> status_code reply < 600)"
  shows "fst (invoke_agent L W h q c ep) =
           (case process_reply L h (reply_text reply) of
              Inr r \<Rightarrow> Inr r
            | Inl e \<Rightarrow> Inr (error_response L h (api_url ep) e (Some (reply_text reply))))"
proof -
  have ok: "(400 \<le> status_code reply \<and> status_code reply < 600) = False"
    using assms(3) by blast
  show ?thesis
    using assms(1,2)
    by (simp add: invoke_agent_def call_agent_def Let_def ok split: sum.splits)
qed

lemma extract_error: "extract_agent_json L out = Inl e \<Longrightarrow> e = JSONDecodeError"
  by (auto simp: extract_agent_json_def Let_def split: json.splits option.splits if_splits)

lemma process_reply_output:
  assumes "json_loads L txt = Some (JObj rkvs)" "map_of rkvs ''output'' = Some out"
  shows "process_reply L h txt =
           Inr (case extract_agent_json L out of
                  Inr v \<Rightarrow> \<lparr>status = 200, headers = h, body = Dumps v\<rparr>
                | Inl e \<Rightarrow>
                    \<lparr>status = 200, headers = h,
                     body = Dumps (JObj
                       [(''response'', JStr (py_str L out)),
                        (''note'', JStr ''Agent returned unparsable text response'')])\<rparr>)"
proof -
  have k: "''output'' \<in> set (map fst rkvs)" using assms(2) by (rule map_of_key)
  show ?thesis
  proof (cases "extract_agent_json L out")
    case (Inl e)
    then have "e = JSONDecodeError" by (rule extract_error)
    with Inl show ?thesis using assms k by (simp add: process_reply_def)
  next
    case (Inr v)
    then show ?thesis using assms k by (simp add: process_reply_def)
  qed
qed



lemma process_reply_headers: "process_reply L h txt = Inr r \<Longrightarrow> headers r = h"
  by (auto simp: process_reply_def split: option.splits sum.splits if_splits)



lemma call_agent_headers: "call_agent L W h url sent = Inr r \<Longrightarrow> headers r = h"
  by (auto simp: call_agent_def dest: process_reply_headers split: sum.splits if_splits)

lemma invoke_agent_headers:
  assumes "fst (invoke_agent L W h q c ep) = Inr r"
  shows "headers r = h"
proof (cases "auth_default W")
  case (Some e)
  with assms show ?thesis by (simp add: invoke_agent_def)
next
  case None
  define sent where "sent = request_body (format_agent_message L q c (uuid4 W)) (uuid4 W)"
  show ?thesis
  proof (cases "call_agent L W h (api_url ep) sent")
    case (Inr r')
    with assms None have "r = r'" by (simp add: invoke_agent_def Let_def sent_def)
    with Inr show ?thesis by (auto dest: call_agent_headers)
  next
    case (Inl a)
    obtain e t where "a = (e, t)" by (cases a)
    with Inl assms None show ?thesis
      by (auto simp: invoke_agent_def Let_def sent_def error_response_def)
  qed
qed

subsection \<open>The concrete inputs, evaluated\<close>

lemma sample_payload:
  "get_json_silent sample_lib sample_request =
     JObj [(''query'', JStr ''soup''), (''constraint'', JStr '''')]"
  by (simp add: get_json_silent_def sample_request_def sample_lib_def sample_loads_def)

lemma sample_method: "method sample_request = ''POST''"
  by (simp add: sample_request_def)

lemma sample_world_simps:
  "vertex_agent_id (sample_world reply) = Some ''projects/p/locations/us-central1/reasoningEngines/1''"
  "auth_default (sample_world reply) = None"
  "session_post (sample_world reply) url sent = Inr reply"
  by (simp_all add: sample_world_def)

section \<open>Validation\<close>

lemma rejected_without_keys:
  assumes "method req = ''POST''"
    "get_json_silent L req = JNull \<or>
     (\<exists>kvs. get_json_silent L req = JObj kvs \<and>
        (''query'' \<notin> set (map fst kvs) \<or> ''constraint'' \<notin> set (map fst kvs)))"
  shows "agentProxy L W req = (Inr validation_error_response, [])"
proof -
  have "payload_rejected L (get_json_silent L req) = Inr True"
    using assms(2) by (auto simp: payload_rejected_def)
  then show ?thesis using assms(1) by (simp add: agentProxy_def)
qed

lemma unparsable_body_is_null:
  "json_loads L (data req) = None \<Longrightarrow> get_json_silent L req = JNull"
  by (simp add: get_json_silent_def)

text \<open>
  C3. A JSON body that is not a container has neither key, and the membership test of
  line 65 raises on it: the request ends in an uncaught \<^verbatim>\<open>TypeError\<close> instead of
  the 400 response.
\<close>

theorem scalar_body_raises:
  "agentProxy sample_lib W \<lparr>method = ''POST'', is_json = True, data = ''5''\<rparr> = (Inl TypeError, [])"
  by (simp add: agentProxy_def get_json_silent_def sample_lib_def sample_loads_def
      payload_rejected_def)

section \<open>Missing configuration\<close>

text \<open>
  C5. A POST request whose body is a JSON object with both keys, met with an unset or
  empty \<^verbatim>\<open>VERTEX_AGENT_ID\<close>, gets the 500 response with the configuration error,
  and the handler has done nothing to the outside: no credentials are looked up, no
  session is opened, nothing is posted.
\<close>

theorem missing_agent_id_no_network:
  assumes "method req = ''POST''" "get_json_silent L req = JObj kvs"
    "map_of kvs ''query'' = Some q" "map_of kvs ''constraint'' = Some c"
    "vertex_agent_id W = None \<or> vertex_agent_id W = Some []"
  shows "agentProxy L W req =
           (Inr \<lparr>status = 500, headers = json_headers,
                 body = Dumps (JObj [(''error'', JStr ''Configuration Error: Agent ID environment variable (VERTEX_AGENT_ID) not set. Check deployment command.'')])\<rparr>,
            [])"
  unfolding agentProxy_accepted [OF assms(1-4)]
  using assms(5) by (auto simp: config_error_response_def)

theorem missing_agent_id_no_network_witness:
  "agentProxy sample_lib
     ((sample_world \<lparr>status_code = 200, reply_text = ''{}''\<rparr>)\<lparr>vertex_agent_id := None\<rparr>)
     sample_request =
     (Inr \<lparr>status = 500, headers = json_headers,
           body = Dumps (JObj [(''error'', JStr ''Configuration Error: Agent ID environment variable (VERTEX_AGENT_ID) not set. Check deployment command.'')])\<rparr>,
      [])"
  by (rule missing_agent_id_no_network [OF sample_method sample_payload]) simp_all

section \<open>Replies of the agent\<close>

lemma agentProxy_reply:
  assumes "method req = ''POST''" "get_json_silent L req = JObj kvs"
    "map_of kvs ''query'' = Some q" "map_of kvs ''constraint'' = Some c"
    "vertex_agent_id W = Some ep" "ep \<noteq> []" "auth_default W = None"
    "session_post W (api_url ep)
       (request_body (format_agent_message L q c (uuid4 W)) (uuid4 W)) = Inr reply"
    "\<not> (400 \<le> status_code reply \<and> status_code reply < 600)"
  shows "fst (agentProxy L W req) =
           (case process_reply L json_headers (reply_text reply) of
              Inr r \<Rightarrow> Inr r
            | Inl e \<Rightarrow>
                Inr (error_response L json_headers (api_url ep) e (Some (reply_text reply))))"
  unfolding agentProxy_accepted [OF assms(1-4)]
  using assms(5,6) invoke_agent_reply [OF assms(7-9)] by simp

lemma agentProxy_reply_object:
  assumes "method req = ''POST''" "get_json_silent L req = JObj kvs"
    "map_of kvs ''query'' = Some q" "map_of kvs ''constraint'' = Some c"
    "vertex_agent_id W = Some ep" "ep \<noteq> []" "auth_default W = None"
    "session_post W (api_url ep)
       (request_body (format_agent_message L q c (uuid4 W)) (uuid4 W)) = Inr reply"
    "\<not> (400 \<le> status_code reply \<and> status_code reply < 600)"
    "json_loads L (reply_text reply) = Some (JObj rkvs)"
    "map_of rkvs ''output'' = Some out"
  shows "fst (agentProxy L W req) =
           Inr (case extract_agent_json L out of
                  Inr v \<Rightarrow> \<lparr>status = 200, headers = json_headers, body = Dumps v\<rparr>
                | Inl e \<Rightarrow>
                    \<lparr>status = 200, headers = json_headers,
                     body = Dumps (JObj
                       [(''response'', JStr (py_str L out)),
                        (''note'', JStr ''Agent returned unparsable text response'')])\<rparr>)"
  unfolding agentProxy_reply [OF assms(1-9)] process_reply_output [OF assms(10,11)]
  by simp



lemma sample_endpoint_nonempty: "''projects/p/locations/us-central1/reasoningEngines/1'' \<noteq> []"
  by simp

lemma sample_query: "map_of [(''query'', JStr ''soup''), (''constraint'', JStr '''')] ''query'' = Some (JStr ''soup'')"
  by simp

lemma sample_constraint: "map_of [(''query'', JStr ''soup''), (''constraint'', JStr '''')] ''constraint'' = Some (JStr '''')"
  by simp

lemmas sample_context =
  sample_method sample_payload sample_query sample_constraint
  sample_world_simps(1) sample_endpoint_nonempty sample_world_simps(2)



section \<open>Extraction\<close>

text \<open>
  C2. When the first \<^verbatim>\<open>{\<close> of the output string is at position \<open>i\<close>, the last
  \<^verbatim>\<open>}\<close> at position \<open>j\<close>, and \<open>i < j\<close>, the extraction is
  \<^verbatim>\<open>json.loads\<close> on the characters from \<open>i\<close> through \<open>j\<close>: its value when it
  parses, the decode error when it does not. Braces between the two play no part.
\<close>

theorem outermost_span_parsed:
  assumes "first_index CHR ''{'' s i" "last_index CHR ''}'' s j" "i < j"
  shows "extract_agent_json L (JStr s) =
           (case json_loads L (take (j + 1 - i) (drop i s)) of
              Some v \<Rightarrow> Inr v
            | None \<Rightarrow> Inl JSONDecodeError)"
  using assms by (rule extract_span)

lemma first_brace_sure: "first_index CHR ''{'' ''Sure! {} Thanks.'' 6"
  using str_find_present [of "CHR ''{''" "''Sure! {} Thanks.''"] by simp

lemma last_brace_sure: "last_index CHR ''}'' ''Sure! {} Thanks.'' 7"
  using str_rfind_present [of "CHR ''}''" "''Sure! {} Thanks.''"]
  by (simp add: str_rfind_def)

lemma first_brace_twice: "first_index CHR ''{'' ''{} and {}'' 0"
  using str_find_present [of "CHR ''{''" "''{} and {}''"] by simp

lemma last_brace_twice: "last_index CHR ''}'' ''{} and {}'' 8"
  using str_rfind_present [of "CHR ''}''" "''{} and {}''"]
  by (simp add: str_rfind_def)

text \<open>
  Two runs: a JSON object wrapped in prose is recovered; of two objects in one string
  the span from the first \<^verbatim>\<open>{\<close> to the last \<^verbatim>\<open>}\<close> is tried as a whole, and it
  does not parse although the first balanced pair would.
\<close>

theorem outermost_span_parsed_witness:
  "extract_agent_json sample_lib (JStr ''Sure! {} Thanks.'') = Inr (JObj []) \<and>
   extract_agent_json sample_lib (JStr ''{} and {}'') = Inl JSONDecodeError"
proof
  have "(6::nat) < 7" by simp
  from outermost_span_parsed [OF first_brace_sure last_brace_sure this, of sample_lib]
  show "extract_agent_json sample_lib (JStr ''Sure! {} Thanks.'') = Inr (JObj [])"
    by (simp add: sample_lib_def sample_loads_def)
next
  have "(0::nat) < 8" by simp
  from outermost_span_parsed [OF first_brace_twice last_brace_twice this, of sample_lib]
  show "extract_agent_json sample_lib (JStr ''{} and {}'') = Inl JSONDecodeError"
    by (simp add: sample_lib_def sample_loads_def)
qed



lemma ok_200: "\<not> (400 \<le> status_code \<lparr>status_code = 200, reply_text = t\<rparr> \<and>
                    status_code \<lparr>status_code = 200, reply_text = t\<rparr> < 600)"
  by simp



text \<open>
  C10. When the output is not a string, it is returned as it is; when it is a string
  whose characters from the first \<^verbatim>\<open>{\<close> through the last \<^verbatim>\<open>}\<close> parse to a value,
  that value is returned. Either way the answer is 200 with \<^verbatim>\<open>json.dumps\<close> of the
  value, whatever the value is: no key of it is looked at.
\<close>

theorem extracted_value_returned_unchecked:
  assumes "method req = ''POST''" "get_json_silent L req = JObj kvs"
    "map_of kvs ''query'' = Some q" "map_of kvs ''constraint'' = Some c"
    "vertex_agent_id W = Some ep" "ep \<noteq> []" "auth_default W = None"
    "session_post W (api_url ep)
       (request_body (format_agent_message L q c (uuid4 W)) (uuid4 W)) = Inr reply"
    "\<not> (400 \<le> status_code reply \<and> status_code reply < 600)"
    "json_loads L (reply_text reply) = Some (JObj rkvs)"
    "map_of rkvs ''output'' = Some out"
    "((\<forall>s. out \<noteq> JStr s) \<and> v = out) \<or>
     (\<exists>s i j. out = JStr s \<and> first_index CHR ''{'' s i \<and> last_index CHR ''}'' s j \<and> i < j \<and>
        json_loads L (take (j + 1 - i) (drop i s)) = Some v)"
  shows "fst (agentProxy L W req) =
           Inr \<lparr>status = 200, headers = json_headers, body = Dumps v\<rparr>"
proof -
  have "extract_agent_json L out = Inr v"
    using assms(12)
  proof
    assume "(\<forall>s. out \<noteq> JStr s) \<and> v = out"
    then show ?thesis by (cases out) (simp_all add: extract_agent_json_def)
  next
    assume "\<exists>s i j. out = JStr s \<and> first_index CHR ''{'' s i \<and> last_index CHR ''}'' s j \<and> i < j \<and>
        json_loads L (take (j + 1 - i) (drop i s)) = Some v"
    then obtain s i j where out: "out = JStr s"
      and ij: "first_index CHR ''{'' s i" "last_index CHR ''}'' s j" "i < j"
      and some: "json_loads L (take (j + 1 - i) (drop i s)) = Some v" by blast
    show ?thesis unfolding out extract_span [OF ij] some by simp
  qed
  then show ?thesis
    unfolding agentProxy_reply_object [OF assms(1-11)] by simp
qed

theorem extracted_value_returned_unchecked_witness:
  \<open>fst (agentProxy sample_lib
          (sample_world \<lparr>status_code = 200, reply_text = ''{"output": [1]}''\<rparr>)
          sample_request) =
     Inr \<lparr>status = 200, headers = json_headers, body = Dumps (JArr [JInt 1])\<rparr> \<and>
   fst (agentProxy sample_lib
          (sample_world \<lparr>status_code = 200, reply_text = ''{"output": "Sure! {} Thanks."}''\<rparr>)
          sample_request) =
     Inr \<lparr>status = 200, headers = json_headers, body = Dumps (JObj [])\<rparr>\<close>
proof
  have l: \<open>json_loads sample_lib
             (reply_text \<lparr>status_code = 200, reply_text = ''{"output": [1]}''\<rparr>) =
           Some (JObj [(''output'', JArr [JInt 1])])\<close>
    by (simp add: sample_lib_def sample_loads_def)
  have o: "map_of [(''output'', JArr [JInt 1])] ''output'' = Some (JArr [JInt 1])"
    by simp
  have "(\<forall>s. JArr [JInt 1] \<noteq> JStr s) \<and> JArr [JInt 1] = JArr [JInt 1]" by simp
  then show \<open>fst (agentProxy sample_lib
          (sample_world \<lparr>status_code = 200, reply_text = ''{"output": [1]}''\<rparr>)
          sample_request) =
     Inr \<lparr>status = 200, headers = json_headers, body = Dumps (JArr [JInt 1])\<rparr>\<close>
    by (intro extracted_value_returned_unchecked
          [OF sample_context sample_world_simps(3) ok_200 l o] disjI1)
next
  have l: \<open>json_loads sample_lib
             (reply_text \<lparr>status_code = 200, reply_text = ''{"output": "Sure! {} Thanks."}''\<rparr>) =
           Some (JObj [(''output'', JStr ''Sure! {} Thanks.'')])\<close>
    by (simp add: sample_lib_def sample_loads_def)
  have o: "map_of [(''output'', JStr ''Sure! {} Thanks.'')] ''output'' =
             Some (JStr ''Sure! {} Thanks.'')"
    by simp
  have n: "json_loads sample_lib (take (7 + 1 - 6) (drop 6 ''Sure! {} Thanks.'')) = Some (JObj [])"
    by (simp add: sample_lib_def sample_loads_def)
  have "(6::nat) < 7" by simp
  with first_brace_sure last_brace_sure n
  have "\<exists>s i j. JStr ''Sure! {} Thanks.'' = JStr s \<and> first_index CHR ''{'' s i \<and>
          last_index CHR ''}'' s j \<and> i < j \<and>
          json_loads sample_lib (take (j + 1 - i) (drop i s)) = Some (JObj [])"
    by (intro exI [of _ "''Sure! {} Thanks.''"] exI [of _ 6] exI [of _ 7] conjI refl)
  then show \<open>fst (agentProxy sample_lib
          (sample_world \<lparr>status_code = 200, reply_text = ''{"output": "Sure! {} Thanks."}''\<rparr>)
          sample_request) =
     Inr \<lparr>status = 200, headers = json_headers, body = Dumps (JObj [])\<rparr>\<close>
    by (intro extracted_value_returned_unchecked
          [OF sample_context sample_world_simps(3) ok_200 l o] disjI2)
qed

section \<open>Headers\<close>

text \<open>
  C8, as the code has it. Every response to a POST request carries the two headers
  \<^verbatim>\<open>Content-Type: application/json\<close> and \<^verbatim>\<open>Access-Control-Allow-Origin: *\<close>. The
  reply to OPTIONS is constructed with the three CORS headers and no content type;
  the 405 reply to any other method is constructed with no header.
\<close>

theorem response_headers_by_method:
  assumes "fst (agentProxy L W req) = Inr r"
  shows "(method req = ''POST'' \<longrightarrow>
            headers r = [(''Content-Type'', ''application/json''),
                         (''Access-Control-Allow-Origin'', ''*'')]) \<and>
         (method req = ''OPTIONS'' \<longrightarrow>
            headers r = [(''Access-Control-Allow-Origin'', ''*''),
                         (''Access-Control-Allow-Methods'', ''POST, OPTIONS''),
                         (''Access-Control-Allow-Headers'', ''Content-Type'')]) \<and>
         (method req \<noteq> ''POST'' \<and> method req \<noteq> ''OPTIONS'' \<longrightarrow> headers r = [])"
proof (intro conjI impI)
  assume "method req = ''OPTIONS''"
  with assms show "headers r = [(''Access-Control-Allow-Origin'', ''*''),
                         (''Access-Control-Allow-Methods'', ''POST, OPTIONS''),
                         (''Access-Control-Allow-Headers'', ''Content-Type'')]"
    by (auto simp: agentProxy_def)
next
  assume "method req \<noteq> ''POST'' \<and> method req \<noteq> ''OPTIONS''"
  with assms show "headers r = []" by (auto simp: agentProxy_def)
next
  assume post: "method req = ''POST''"
  have "headers r = json_headers"
  proof (cases "payload_rejected L (get_json_silent L req)")
    case (Inl e)
    with assms post show ?thesis by (simp add: agentProxy_def)
  next
    case (Inr rejected)
    show ?thesis
    proof (cases rejected)
      case True
      with Inr assms post show ?thesis
        by (auto simp: agentProxy_def validation_error_response_def)
    next
      case False
      show ?thesis
      proof (cases "py_getitem (get_json_silent L req) ''query''")
        case (Inl e)
        with Inr False assms post show ?thesis by (simp add: agentProxy_def)
      next
        case q: (Inr q)
        show ?thesis
        proof (cases "py_getitem (get_json_silent L req) ''constraint''")
          case (Inl e)
          with Inr False q assms post show ?thesis by (simp add: agentProxy_def)
        next
          case c: (Inr c)
          show ?thesis
          proof (cases "vertex_agent_id W")
            case None
            with Inr False q c assms post show ?thesis
              by (auto simp: agentProxy_def config_error_response_def)
          next
            case (Some ep)
            show ?thesis
            proof (cases "ep = []")
              case True
              with Some Inr False q c assms post show ?thesis
                by (auto simp: agentProxy_def config_error_response_def)
            next
              case ne: False
              with Some Inr False q c assms post
              have "fst (invoke_agent L W json_headers q c ep) = Inr r"
                by (simp add: agentProxy_def)
              then show ?thesis by (rule invoke_agent_headers)
            qed
          qed
        qed
      qed
    qed
  qed
  then show "headers r = [(''Content-Type'', ''application/json''),
                         (''Access-Control-Allow-Origin'', ''*'')]"
    by (simp add: json_headers_def)
qed

theorem response_headers_by_method_witness:
  "headers validation_error_response =
     [(''Content-Type'', ''application/json''), (''Access-Control-Allow-Origin'', ''*'')]"
proof -
  let ?req = "\<lparr>method = ''POST'', is_json = False, data = ''''\<rparr>"
  have "fst (agentProxy sample_lib (sample_world \<lparr>status_code = 200, reply_text = ''{}''\<rparr>) ?req)
          = Inr validation_error_response"
    by (simp add: agentProxy_def get_json_silent_def payload_rejected_def)
  from response_headers_by_method [OF this] show ?thesis by simp
qed

text \<open>
  C8 as stated fails on the 405 reply: a GET request is answered without the header
  \<^verbatim>\<open>Access-Control-Allow-Origin\<close>, indeed without any header.
\<close>

theorem method_not_allowed_without_headers:
  "fst (agentProxy sample_lib (sample_world \<lparr>status_code = 200, reply_text = ''{}''\<rparr>)
          \<lparr>method = ''GET'', is_json = False, data = ''''\<rparr>) =
     Inr \<lparr>status = 405, headers = [], body = Text ''Method Not Allowed''\<rparr> \<and>
   (''Access-Control-Allow-Origin'', ''*'') \<notin>
     set (headers \<lparr>status = 405, headers = [], body = Text ''Method Not Allowed''\<rparr>)"
  by (simp add: agentProxy_def)

section \<open>The prompt\<close>

lemma prompt_around_constraint:
  \<open>join_nl (prompt_lines sid q cs) =
     join_nl (take 6 (prompt_lines sid q cs)) @ newline #
       (''        '' @ ''- Constraint: "'' @ cs @ ''"'') @ newline #
       join_nl (drop 7 (prompt_lines sid q cs))\<close>
  by (simp add: prompt_lines_def)

lemma prompt_around_request:
  \<open>join_nl (prompt_lines sid q cs) =
     join_nl (take 5 (prompt_lines sid q cs)) @ newline #
       (''        '' @ ''- Request: "'' @ q @ ''"'') @ newline #
       join_nl (drop 6 (prompt_lines sid q cs))\<close>
  by (simp add: prompt_lines_def)

lemma field_line_kept:
  assumes "newline \<notin> set core" "core \<noteq> []" "\<not> is_blank_tab (hd core)"
    "\<not> is_space (hd core)" "\<not> is_space (last core)"
  shows "sublist core (strip (dedent (pre @ newline # (''        '' @ core) @ newline # post)))"
proof -
  have b: "list_all is_blank_tab ''        ''" by (simp add: is_blank_tab_def)
  have n: "newline \<notin> set (''        '' @ core)" using assms(1) by (simp add: newline_def)
  from dedent_keeps_line [OF b assms(2,3) n]
  have "sublist core (dedent (pre @ newline # (''        '' @ core) @ newline # post))" .
  then show ?thesis using assms(2,4,5) by (rule strip_keeps_sublist)
qed

lemma constraint_line_kept:
  assumes "newline \<notin> set cs"
  shows \<open>sublist (''- Constraint: "'' @ cs @ ''"'')
           (strip (dedent (join_nl (prompt_lines sid q cs))))\<close>
  unfolding prompt_around_constraint
  by (rule field_line_kept) (use assms in \<open>simp_all add: newline_def is_blank_tab_def is_space_def\<close>)

lemma request_line_kept:
  assumes "newline \<notin> set q"
  shows \<open>sublist (''- Request: "'' @ q @ ''"'')
           (strip (dedent (join_nl (prompt_lines sid q cs))))\<close>
  unfolding prompt_around_request
  by (rule field_line_kept) (use assms in \<open>simp_all add: newline_def is_blank_tab_def is_space_def\<close>)

lemma prompt_lines_single:
  assumes "newline \<notin> set sid" "newline \<notin> set q" "newline \<notin> set cs"
  shows "split_nl (join_nl (prompt_lines sid q cs)) = prompt_lines sid q cs"
proof (rule split_join_nl)
  show "prompt_lines sid q cs \<noteq> []" by (simp add: prompt_lines_def)
  show "\<forall>l\<in>set (prompt_lines sid q cs). newline \<notin> set l"
    using assms by (simp add: prompt_lines_def newline_def)
qed

lemma dedent_prompt_single:
  assumes "newline \<notin> set sid" "newline \<notin> set q" "newline \<notin> set cs"
  shows "dedent (join_nl (prompt_lines sid q cs)) =
           join_nl (map (cut_margin ''        '') (map blank_out (prompt_lines sid q cs)))"
proof -
  have "foldl margin_step None
          (map indent_of (filter (\<lambda>l. l \<noteq> []) (map blank_out (prompt_lines sid q cs)))) =
        Some ''        ''"
    by (simp add: prompt_lines_def blank_out_def indent_of_def is_blank_tab_def)
  then show ?thesis
    by (simp add: dedent_def Let_def prompt_lines_single [OF assms])
qed

lemma hd_join_nl: "l \<noteq> [] \<Longrightarrow> hd (join_nl (l # ls)) = hd l"
  by (cases ls) auto

lemma join_nl_last:
  "ls \<noteq> [] \<Longrightarrow> last ls \<noteq> [] \<Longrightarrow>
     join_nl ls \<noteq> [] \<and> last (join_nl ls) = last (last ls)"
proof (induction ls)
  case Nil
  then show ?case by simp
next
  case (Cons l ls)
  show ?case
  proof (cases "ls = []")
    case True
    with Cons.prems show ?thesis by simp
  next
    case False
    with Cons have "join_nl ls \<noteq> [] \<and> last (join_nl ls) = last (last ls)" by simp
    then show ?thesis using False by (simp add: join_nl_Cons)
  qed
qed

lemma last_join_nl: "ls \<noteq> [] \<Longrightarrow> last ls \<noteq> [] \<Longrightarrow> last (join_nl ls) = last (last ls)"
  by (simp add: join_nl_last)

lemma join_nl_framed:
  "ls \<noteq> [] \<Longrightarrow> join_nl ([] # ls @ [[]]) = [newline] @ join_nl ls @ [newline]"
  by (simp add: join_nl_Cons join_nl_append)

lemma prompt_single:
  assumes "newline \<notin> set sid" "newline \<notin> set q" "newline \<notin> set cs"
  shows \<open>strip (dedent (join_nl (prompt_lines sid q cs))) =
     join_nl
       [''SESSION_ID: '' @ sid,
        '''',
        ''OBSERVE:'',
        ''- Capture the incoming request exactly as received.'',
        ''- Request: "'' @ q @ ''"'',
        ''- Constraint: "'' @ cs @ ''"'',
        '''',
        ''REFLECT:'',
        ''- Review the observation for missing context (missing steps, conflicting instructions).'',
        ''- Call out any tensions or nutrition trade-offs before planning.'',
        '''',
        ''LOOP:'',
        ''- Produce a corrected cooking plan that explicitly mentions how you honored the constraint.'',
        ''- Highlight a single self-correction you made after your reflection.'',
        ''- **The ONLY output you provide MUST be a valid, unadulterated JSON object.**'',
        ''- Answer in JSON with keys: plan (array of steps), constraint_ack (string), self_corrections (string), session_id (string).'',
        ''- Close the loop by confirming the plan is ready to execute.'']\<close>
    (is "_ = join_nl ?ls")
proof -
  have m: "map (cut_margin ''        '') (map blank_out (prompt_lines sid q cs)) =
             [] # ?ls @ [[]]"
    by (simp add: prompt_lines_def blank_out_def cut_margin_def is_blank_tab_def)
  have d: "dedent (join_nl (prompt_lines sid q cs)) = [newline] @ join_nl ?ls @ [newline]"
    unfolding dedent_prompt_single [OF assms] m
    by (rule join_nl_framed) simp
  have h: "hd (join_nl ?ls) = CHR ''S''"
    by (rule hd_join_nl [THEN trans]) simp_all
  have l: "last (join_nl ?ls) = CHR ''.''"
    by (rule last_join_nl [THEN trans]) simp_all
  have ne: "join_nl ?ls \<noteq> []"
    by (simp del: join_nl.simps add: join_nl_Cons)
  show ?thesis
    unfolding d
    by (rule strip_core [OF ne]) (simp_all only: h l, simp_all add: is_space_def newline_def)
qed

lemma format_agent_message_unfold:
  "format_agent_message L query constraint session_id =
     strip (dedent (join_nl (prompt_lines session_id (py_str L query)
       (if truthy L constraint then py_str L constraint else ''No additional constraint.''))))"
  by (simp add: format_agent_message_def)

lemma sublist_middle: "sublist (a @ x @ b) s \<Longrightarrow> sublist x s"
proof -
  assume "sublist (a @ x @ b) s"
  then obtain p r where "s = p @ (a @ x @ b) @ r" unfolding sublist_def by blast
  then have "s = (p @ a) @ x @ (b @ r)" by simp
  then show ?thesis unfolding sublist_def by blast
qed

text \<open>
  C6, for single-line inputs. When the text of the query, the text of the constraint
  and the session id hold no line break, the lines of the prompt that are section
  labels are OBSERVE, REFLECT and LOOP, once each and in this order, and the prompt
  holds the query text verbatim, between the quotes of its request line.
\<close>

theorem single_line_prompt_sections:
  assumes "newline \<notin> set (py_str L query)" "newline \<notin> set (py_str L constraint)"
    "newline \<notin> set session_id"
  shows \<open>section_headers (format_agent_message L query constraint session_id) =
           [''OBSERVE:'', ''REFLECT:'', ''LOOP:''] \<and>
         ''- Request: "'' @ py_str L query @ ''"'' \<in>
           set (split_nl (format_agent_message L query constraint session_id)) \<and>
         sublist (py_str L query) (format_agent_message L query constraint session_id)\<close>
proof -
  define cs where
    "cs = (if truthy L constraint then py_str L constraint else ''No additional constraint.'')"
  define q where "q = py_str L query"
  have ncs: "newline \<notin> set cs" using assms(2) by (simp add: cs_def newline_def)
  have nq: "newline \<notin> set q" using assms(1) by (simp add: q_def)
  have f: "format_agent_message L query constraint session_id =
             strip (dedent (join_nl (prompt_lines session_id q cs)))"
    by (simp add: format_agent_message_unfold cs_def q_def)
  have sp: \<open>split_nl (format_agent_message L query constraint session_id) =
     [''SESSION_ID: '' @ session_id,
      '''',
      ''OBSERVE:'',
      ''- Capture the incoming request exactly as received.'',
      ''- Request: "'' @ q @ ''"'',
      ''- Constraint: "'' @ cs @ ''"'',
      '''',
      ''REFLECT:'',
      ''- Review the observation for missing context (missing steps, conflicting instructions).'',
      ''- Call out any tensions or nutrition trade-offs before planning.'',
      '''',
      ''LOOP:'',
      ''- Produce a corrected cooking plan that explicitly mentions how you honored the constraint.'',
      ''- Highlight a single self-correction you made after your reflection.'',
      ''- **The ONLY output you provide MUST be a valid, unadulterated JSON object.**'',
      ''- Answer in JSON with keys: plan (array of steps), constraint_ack (string), self_corrections (string), session_id (string).'',
      ''- Close the loop by confirming the plan is ready to execute.'']\<close>
    unfolding f prompt_single [OF assms(3) nq ncs]
    by (rule split_join_nl) (use assms(3) nq ncs in \<open>simp_all add: newline_def\<close>)
  have 1: "section_headers (format_agent_message L query constraint session_id) =
           [''OBSERVE:'', ''REFLECT:'', ''LOOP:'']"
    unfolding section_headers_def sp by simp
  have 2: \<open>''- Request: "'' @ q @ ''"'' \<in>
           set (split_nl (format_agent_message L query constraint session_id))\<close>
    unfolding sp by simp
  have \<open>sublist (''- Request: "'' @ q @ ''"'')
          (format_agent_message L query constraint session_id)\<close>
    unfolding f by (rule request_line_kept [OF nq])
  then have 3: "sublist q (format_agent_message L query constraint session_id)"
    by (rule sublist_middle)
  from 1 2 3 show ?thesis unfolding q_def by simp
qed

theorem single_line_prompt_sections_witness:
  \<open>section_headers
      (format_agent_message sample_lib (JStr ''soup'') (JStr '''')
         ''1b4e28ba-2fa1-41d2-883f-0016d3cca427'') =
     [''OBSERVE:'', ''REFLECT:'', ''LOOP:''] \<and>
   ''- Request: "soup"'' \<in>
     set (split_nl
       (format_agent_message sample_lib (JStr ''soup'') (JStr '''')
          ''1b4e28ba-2fa1-41d2-883f-0016d3cca427'')) \<and>
   sublist ''soup''
     (format_agent_message sample_lib (JStr ''soup'') (JStr '''')
        ''1b4e28ba-2fa1-41d2-883f-0016d3cca427'')\<close>
  using single_line_prompt_sections
    [of sample_lib "JStr ''soup''" "JStr ''''" "''1b4e28ba-2fa1-41d2-883f-0016d3cca427''"]
  by (simp add: newline_def)

text \<open>
  C6 as stated fails for a query of two lines whose second line is indented like
  the template: the indentation is cut from it, and the prompt no longer holds the
  query.
\<close>

theorem indented_query_not_verbatim:
  "\<not> sublist ''x\<newline>        y''
       (format_agent_message sample_lib (JStr ''x\<newline>        y'') (JStr '''')
          ''1b4e28ba-2fa1-41d2-883f-0016d3cca427'')"
  by code_simp




text \<open>
  C9. The placeholder is chosen by truth value: \<^verbatim>\<open>None\<close>, \<^verbatim>\<open>False\<close>, \<^verbatim>\<open>0\<close>,
  the empty string, the empty list and the empty dict are all falsy, and every falsy
  constraint gives the prompt of the template filled with the placeholder, which
  holds the constraint line with the placeholder. A truthy constraint that is not a
  string gives the prompt of the template filled with its \<^verbatim>\<open>repr\<close>.
\<close>

theorem falsy_constraint_placeholder:
  \<open>(\<forall>v \<in> set [JNull, JBool False, JInt 0, JStr '''', JArr [], JObj []]. \<not> truthy L v) \<and>
    (\<not> truthy L constraint \<longrightarrow>
       format_agent_message L query constraint session_id =
         strip (dedent (join_nl
           (prompt_lines session_id (py_str L query) ''No additional constraint.''))) \<and>
       sublist ''- Constraint: "No additional constraint."''
         (format_agent_message L query constraint session_id)) \<and>
    (truthy L constraint \<and> (\<forall>s. constraint \<noteq> JStr s) \<longrightarrow>
       format_agent_message L query constraint session_id =
         strip (dedent (join_nl
           (prompt_lines session_id (py_str L query) (py_repr L constraint)))))\<close>
proof (intro conjI impI)
  show "\<forall>v \<in> set [JNull, JBool False, JInt 0, JStr '''', JArr [], JObj []]. \<not> truthy L v"
    by simp
next
  assume "\<not> truthy L constraint"
  then show f: "format_agent_message L query constraint session_id =
         strip (dedent (join_nl
           (prompt_lines session_id (py_str L query) ''No additional constraint.'')))"
    by (simp add: format_agent_message_unfold)
  have \<open>sublist (''- Constraint: "'' @ ''No additional constraint.'' @ ''"'')
          (format_agent_message L query constraint session_id)\<close>
    unfolding f by (rule constraint_line_kept) (simp add: newline_def)
  then show \<open>sublist ''- Constraint: "No additional constraint."''
         (format_agent_message L query constraint session_id)\<close>
    by simp
next
  assume a: "truthy L constraint \<and> (\<forall>s. constraint \<noteq> JStr s)"
  then have "py_str L constraint = py_repr L constraint" by (cases constraint) simp_all
  with a show "format_agent_message L query constraint session_id =
         strip (dedent (join_nl
           (prompt_lines session_id (py_str L query) (py_repr L constraint))))"
    by (simp add: format_agent_message_unfold)
qed

theorem falsy_constraint_placeholder_witness:
  \<open>sublist ''- Constraint: "No additional constraint."''
      (format_agent_message sample_lib (JStr ''soup'') JNull
         ''1b4e28ba-2fa1-41d2-883f-0016d3cca427'') \<and>
    format_agent_message sample_lib (JStr ''soup'') (JArr [JInt 1])
      ''1b4e28ba-2fa1-41d2-883f-0016d3cca427'' =
      strip (dedent (join_nl
        (prompt_lines ''1b4e28ba-2fa1-41d2-883f-0016d3cca427'' ''soup'' ''[1]'')))\<close>
proof -
  have t1: "\<not> truthy sample_lib JNull" by simp
  have t2: "truthy sample_lib (JArr [JInt 1]) \<and> (\<forall>s. JArr [JInt 1] \<noteq> JStr s)" by simp
  have r: "py_repr sample_lib (JArr [JInt 1]) = ''[1]''" by (simp add: sample_lib_def)
  have q: "py_str sample_lib (JStr ''soup'') = ''soup''" by simp
  note a = falsy_constraint_placeholder
      [of sample_lib JNull "JStr ''soup''" "''1b4e28ba-2fa1-41d2-883f-0016d3cca427''",
       THEN conjunct2, THEN conjunct1, THEN mp, OF t1, THEN conjunct2]
  note b = falsy_constraint_placeholder
      [of sample_lib "JArr [JInt 1]" "JStr ''soup''" "''1b4e28ba-2fa1-41d2-883f-0016d3cca427''",
       THEN conjunct2, THEN conjunct2, THEN mp, OF t2, unfolded r q]
  from a b show ?thesis by (rule conjI)
qed

end
